theory Spec2Isabelle
  imports Complex_Main
begin

section \<open>Decimal digits\<close>

text \<open>
  The ASCII digits and the number a group of digits denotes; used wherever a text is
  read as a number below.
\<close>

definition is_digit :: "char \<Rightarrow> bool" where
  "is_digit c = (48 \<le> (of_char c :: nat) \<and> (of_char c :: nat) \<le> 57)"

definition digits_value :: "string \<Rightarrow> nat" where
  "digits_value ds = foldl (\<lambda>n c. 10 * n + ((of_char c :: nat) - 48)) 0 ds"

section \<open>Frontend API utilities (frontend/src/utils/api.js)\<close>

subsection \<open>Errors and the request function\<close>

text \<open>
  An error object has a \<open>message\<close> and, when the server answered, a \<open>response\<close>
  carrying the HTTP \<open>status\<close> (the shape of an axios error).
\<close>

record http_response =
  status :: int

record js_error =
  err_message :: string
  err_response :: "http_response option"

text \<open>
  What a request function may reject with: an error object, or \<open>undefined\<close> or \<open>null\<close>
  (\<^verbatim>\<open>Promise.reject()\<close>, \<^verbatim>\<open>throw null\<close>), on which reading a property throws.
\<close>

datatype rejection = Rejected_undefined | Rejected_null | Rejected js_error

text \<open>
  \<open>requestFn\<close> is a thunk that is called once per attempt and may behave differently each
  time; it is modelled by the outcome of each of its invocations, numbered from 1 as the
  loop variable \<open>attempt\<close> is: \<open>Inr\<close> the resolved value, \<open>Inl\<close> what it rejects with.
\<close>

type_synonym 'r requestFn = "nat \<Rightarrow> rejection + 'r"

text \<open>
  The guard of the catch block:
  \<^verbatim>\<open>error.response && error.response.status >= 400 && error.response.status < 500\<close>
  and inside it \<^verbatim>\<open>status !== 408 && status !== 429\<close>; when both hold the error is
  rethrown at once.
\<close>

definition client_error :: "js_error \<Rightarrow> bool" where
  "client_error error =
     (case err_response error of
        None \<Rightarrow> False
      | Some r \<Rightarrow> status r \<ge> 400 \<and> status r < 500 \<and> status r \<noteq> 408 \<and> status r \<noteq> 429)"

text \<open>
  The catch block logs \<^verbatim>\<open>error.message\<close> before it tests the status. On \<open>undefined\<close>
  or \<open>null\<close> this read throws a \<open>TypeError\<close>, which leaves \<open>retryRequest\<close> in place of
  the rejection. The \<open>TypeError\<close> is an error object without a response; its message
  is the engine's (V8's wording here), \<open>what\<close> being \<open>undefined\<close> or \<open>null\<close>.
\<close>

definition TypeError_reading_message :: "string \<Rightarrow> js_error" where
  "TypeError_reading_message what =
     \<lparr>err_message = ''Cannot read properties of '' @ what @ '' (reading '' @ [CHR 0x27] @
                      ''message'' @ [CHR 0x27] @ '')'',
      err_response = None\<rparr>"

subsection \<open>retryRequest\<close>

text \<open>
  What one call of \<open>retryRequest\<close> did: how it settled (\<open>Inr\<close> the returned result,
  \<open>Inl\<close> the thrown value, which is \<open>None\<close> for \<open>undefined\<close> when \<open>lastError\<close> was never
  assigned), how many times it invoked \<open>requestFn\<close>, and for how many milliseconds it
  slept in total.
\<close>

record 'r retry_run =
  outcome :: "js_error option + 'r"
  invocations :: nat
  slept_ms :: int

text \<open>
  The loop \<^verbatim>\<open>for (let attempt = 1; attempt <= maxRetries; attempt++)\<close> with its
  \<open>try\<close>/\<open>catch\<close> body. The arguments after \<open>delay\<close> are the loop variable,
  \<open>lastError\<close>, and the two counters of the run so far. Leaving the loop reaches
  \<^verbatim>\<open>throw lastError\<close>.
\<close>

function retry_loop ::
  "'r requestFn \<Rightarrow> int \<Rightarrow> int \<Rightarrow> nat \<Rightarrow> js_error option \<Rightarrow> nat \<Rightarrow> int \<Rightarrow> 'r retry_run" where
  "retry_loop requestFn maxRetries delay attempt lastError calls slept =
     (if int attempt \<le> maxRetries then
        (case requestFn attempt of
           Inr result \<Rightarrow> \<lparr>outcome = Inr result, invocations = Suc calls, slept_ms = slept\<rparr>
         | Inl Rejected_undefined \<Rightarrow>
             \<lparr>outcome = Inl (Some (TypeError_reading_message ''undefined'')),
              invocations = Suc calls, slept_ms = slept\<rparr>
         | Inl Rejected_null \<Rightarrow>
             \<lparr>outcome = Inl (Some (TypeError_reading_message ''null'')),
              invocations = Suc calls, slept_ms = slept\<rparr>
         | Inl (Rejected error) \<Rightarrow>
             if client_error error
             then \<lparr>outcome = Inl (Some error), invocations = Suc calls, slept_ms = slept\<rparr>
             else retry_loop requestFn maxRetries delay (Suc attempt) (Some error) (Suc calls)
                    (if int attempt < maxRetries then slept + delay else slept))
      else \<lparr>outcome = Inl lastError, invocations = calls, slept_ms = slept\<rparr>)"
  by pat_completeness auto
termination
  by (relation "measure (\<lambda>(requestFn, maxRetries, delay, attempt, lastError, calls, slept).
                  nat (maxRetries + 1 - int attempt))") auto

definition retryRequest :: "'r requestFn \<Rightarrow> int \<Rightarrow> int \<Rightarrow> 'r retry_run" where
  "retryRequest requestFn maxRetries delay = retry_loop requestFn maxRetries delay 1 None 0 0"

text \<open>The defaults of the parameters: \<^verbatim>\<open>maxRetries = 3, delay = 2000\<close>.\<close>

definition default_maxRetries :: int where
  "default_maxRetries = 3"

definition default_delay :: int where
  "default_delay = 2000"

text \<open>Errors and request functions on which the loop is run below.\<close>

definition err500 :: js_error where
  "err500 = \<lparr>err_message = ''Request failed with status code 500'',
              err_response = Some \<lparr>status = 500\<rparr>\<rparr>"

definition err404 :: js_error where
  "err404 = \<lparr>err_message = ''Request failed with status code 404'',
              err_response = Some \<lparr>status = 404\<rparr>\<rparr>"

definition flaky_then_404 :: "nat requestFn" where
  "flaky_then_404 attempt = (if attempt < 2 then Inl (Rejected err500) else Inl (Rejected err404))"

definition rejects_undefined :: "nat requestFn" where
  "rejects_undefined attempt = Inl Rejected_undefined"

subsection \<open>api.get and healthCheck\<close>

text \<open>
  \<open>api.get\<close> is \<^verbatim>\<open>retryRequest(() => apiClient.get(url, config))\<close> with the default
  \<open>maxRetries\<close> and \<open>delay\<close>. The response of the health endpoint is read through
  \<^verbatim>\<open>response.data?.message\<close>: \<open>data\<close> may be missing, and so may its \<open>message\<close>.
\<close>

record api_data =
  data_message :: "string option"

record api_response =
  data :: "api_data option"

definition api_get :: "'r requestFn \<Rightarrow> 'r retry_run" where
  "api_get get = retryRequest get default_maxRetries default_delay"

text \<open>
  \<^verbatim>\<open>a || b\<close> on a value that is a string, \<open>null\<close> or \<open>undefined\<close>: the empty string is
  falsy too.
\<close>

definition js_or :: "string option \<Rightarrow> string \<Rightarrow> string" where
  "js_or a b = (case a of None \<Rightarrow> b | Some s \<Rightarrow> if s = [] then b else s)"

text \<open>
  The object \<open>healthCheck\<close> returns has the keys \<open>success\<close>, \<open>url\<close> and either
  \<open>message\<close> or \<open>error\<close>. Reading \<open>error.message\<close> in the catch block throws a
  \<open>TypeError\<close> when the caught value is \<open>undefined\<close>, so the function returns
  \<open>js_throw + health_report\<close>.
\<close>

datatype js_throw = TypeError

record health_report =
  success :: bool
  url :: string
  message :: "string option"
  error :: "string option"

definition healthCheck :: "string \<Rightarrow> api_response requestFn \<Rightarrow> js_throw + health_report" where
  "healthCheck API_BASE_URL get =
     (case outcome (api_get get) of
        Inr resp \<Rightarrow>
          Inr \<lparr>success = True, url = API_BASE_URL,
               message = Some (js_or (case data resp of None \<Rightarrow> None
                                      | Some d \<Rightarrow> data_message d) ''API is healthy''),
               error = None\<rparr>
      | Inl None \<Rightarrow> Inl TypeError
      | Inl (Some err) \<Rightarrow>
          Inr \<lparr>success = False, url = API_BASE_URL, message = None,
               error = Some (err_message err)\<rparr>)"

section \<open>Frontend application (frontend/src/App.js and its later versions)\<close>

subsection \<open>JavaScript numbers\<close>

text \<open>
  The dashboard computes with JavaScript numbers (IEEE 754 doubles). Their arithmetic is
  not modelled; the operations the code applies to them are parameters, so that every
  statement below holds for the real operations whatever they compute:
  \<open>parseFloat\<close>, the addition \<open>+\<close>, the literal \<open>0\<close>, falsiness (\<open>NaN\<close>, \<open>0\<close> and
  \<open>-0\<close> are the falsy numbers), and the text of
  \<^verbatim>\<open>`${Math.round(x * 100)}%`\<close>.
\<close>

record 'f js_number =
  parseFloat :: "string \<Rightarrow> 'f"
  plus_num :: "'f \<Rightarrow> 'f \<Rightarrow> 'f"
  zero_num :: "'f"
  falsy_num :: "'f \<Rightarrow> bool"
  percent_text :: "'f \<Rightarrow> string"

subsection \<open>Receipts as the API returns them\<close>

text \<open>
  The fields of a receipt that the components read. A JSON \<open>null\<close> and a missing key
  are both \<open>None\<close>.
\<close>

record 'f receipt =
  filename :: string
  processing_status :: string
  merchant_name :: "string option"
  receipt_date :: "string option"
  total_amount :: "string option"
  category :: "string option"
  confidence_score :: "'f option"

text \<open>Truthiness of a value that is a string, \<open>null\<close> or \<open>undefined\<close>.\<close>

definition truthy :: "string option \<Rightarrow> bool" where
  "truthy v = (case v of None \<Rightarrow> False | Some s \<Rightarrow> s \<noteq> [])"

subsection \<open>stats.totalAmount\<close>

text \<open>\<^verbatim>\<open>.replace(/[$,]/g, '')\<close>: every \<open>$\<close> and every comma is deleted.\<close>

definition strip_currency :: "string \<Rightarrow> string" where
  "strip_currency s = filter (\<lambda>c. c \<noteq> CHR ''$'' \<and> c \<noteq> CHR '','') s"

text \<open>
  The callback of \<open>reduce\<close>:
  \<^verbatim>\<open>(sum, r) => { const amount = parseFloat(r.total_amount.replace(/[$,]/g, '')) || 0; return sum + amount; }\<close>.
  Calling \<open>replace\<close> on \<open>null\<close> or \<open>undefined\<close> throws a \<open>TypeError\<close>.
\<close>

definition amount_step :: "'f js_number \<Rightarrow> 'f \<Rightarrow> 'f receipt \<Rightarrow> js_throw + 'f" where
  "amount_step N sum_acc r =
     (case total_amount r of
        None \<Rightarrow> Inl TypeError
      | Some s \<Rightarrow>
          (let parsed = parseFloat N (strip_currency s);
               amount = (if falsy_num N parsed then zero_num N else parsed)
           in Inr (plus_num N sum_acc amount)))"

text \<open>\<open>Array.prototype.reduce\<close> with an initial value; an exception in the callback ends it.\<close>

fun reduce :: "('b \<Rightarrow> 'a \<Rightarrow> js_throw + 'b) \<Rightarrow> 'a list \<Rightarrow> 'b \<Rightarrow> js_throw + 'b" where
  "reduce f [] acc = Inr acc"
| "reduce f (x # xs) acc = (case f acc x of Inl e \<Rightarrow> Inl e | Inr acc' \<Rightarrow> reduce f xs acc')"

text \<open>
  \<^verbatim>\<open>receipts.filter(r => r.total_amount).reduce(..., 0)\<close>
\<close>

definition totalAmount :: "'f js_number \<Rightarrow> 'f receipt list \<Rightarrow> js_throw + 'f" where
  "totalAmount N receipts =
     reduce (amount_step N) (filter (\<lambda>r. truthy (total_amount r)) receipts) (zero_num N)"

text \<open>
  The statistic as the specification words it: the sum, over the receipts whose
  \<open>total_amount\<close> is neither null nor empty, of the number obtained by deleting every
  \<open>$\<close> and \<open>,\<close> and parsing the rest as a float, an unparsable text counting 0. The
  sum is taken from 0 in the order of the list (the addition of doubles is not
  associative). \<open>NaN\<close>, the result of \<open>parseFloat\<close> on unparsable text, is falsy; the
  other falsy numbers are the zeros.
\<close>

definition spec_delete_currency :: "string \<Rightarrow> string" where
  "spec_delete_currency s = removeAll (CHR '','') (removeAll (CHR ''$'') s)"

definition spec_value :: "'f js_number \<Rightarrow> string \<Rightarrow> 'f" where
  "spec_value N s =
     (if falsy_num N (parseFloat N (spec_delete_currency s)) then zero_num N
      else parseFloat N (spec_delete_currency s))"

definition spec_amounts :: "'f js_number \<Rightarrow> 'f receipt list \<Rightarrow> 'f list" where
  "spec_amounts N receipts =
     List.map_filter
       (\<lambda>r. case total_amount r of
               None \<Rightarrow> None
             | Some s \<Rightarrow> if s = [] then None else Some (spec_value N s))
       receipts"

definition spec_totalAmount :: "'f js_number \<Rightarrow> 'f receipt list \<Rightarrow> 'f" where
  "spec_totalAmount N receipts = foldl (plus_num N) (zero_num N) (spec_amounts N receipts)"

subsection \<open>ReceiptDetailModal and ReceiptCard\<close>







subsection \<open>Example data\<close>

text \<open>
  Number operations for the receipts of the examples below, on optional rationals with
  \<open>None\<close> for \<open>NaN\<close>. This is a table, not an implementation of the JavaScript
  operations: \<open>parseFloat\<close> is given on the texts that occur in the examples
  (\<open>1234.50\<close> is 1234.5, \<open>6.75\<close> is 6.75, \<open>abc\<close> is \<open>NaN\<close>; the table gives \<open>NaN\<close> for
  the texts it does not list), the sums of these values are exact in doubles, and the
  percent text is given for the confidence 0.93.
\<close>

definition exact_decimal :: "rat option js_number" where
  "exact_decimal =
     \<lparr>parseFloat =
        (\<lambda>s. if s = ''1234.50'' then Some (2469 / 2)
             else if s = ''6.75'' then Some (27 / 4)
             else None),
      plus_num = (\<lambda>a b. case (a, b) of (Some x, Some y) \<Rightarrow> Some (x + y) | _ \<Rightarrow> None),
      zero_num = Some 0,
      falsy_num = (\<lambda>a. a = None \<or> a = Some 0),
      percent_text = (\<lambda>a. if a = Some (93 / 100) then ''93%'' else [])\<rparr>"

text \<open>A receipt on which only the amount was detected.\<close>

definition receipt_of :: "string option \<Rightarrow> rat option receipt" where
  "receipt_of amount =
     \<lparr>filename = ''receipt.jpg'', processing_status = ''completed'',
      merchant_name = None, receipt_date = None, total_amount = amount,
      category = Some ''Uncategorized'', confidence_score = None\<rparr>"


section \<open>The extraction and categorization engine\<close>

text \<open>
  The engine runs on the server; its code is not among the source files at hand, which
  hold the frontend and the project's documents. The definitions of this section are
  therefore modelled from the specification, section by section. What the specification
  leaves to configuration or to heuristics it does not fix (the regular expressions,
  the scores, the weights) is a field of the record \<open>config\<close>, so that every statement
  holds whatever these are.
\<close>

subsection \<open>Data model\<close>

text \<open>
  Modelled from the spec: the \<open>Date\<close> of the missing engine's data model (section 3),
  a calendar date.
\<close>

record date =
  year :: nat
  month :: nat
  day :: nat

text \<open>
  Modelled from the spec: one element of the missing engine's \<open>RawInput\<close>, a recognized
  line as (text, per-line confidence, line index). Confidences and decimals are exact
  rationals throughout.
\<close>

record raw_line =
  line_text :: string
  line_confidence :: rat
  line_index :: nat

text \<open>
  Modelled from the spec: the missing engine's \<open>RawInput\<close>, the ordered sequence of
  lines with an optional capture timestamp.
\<close>

record raw_input =
  input_lines :: "raw_line list"
  capture_timestamp :: "date option"

text \<open>
  Modelled from the spec: the missing engine's \<open>ExtractedField\<close>, an optional value
  with a confidence and the source span.
\<close>

record 'a extracted_field =
  field_value :: "'a option"
  field_confidence :: rat
  source_span :: string

text \<open>
  Modelled from the spec: the two values of \<open>categorization_method\<close> in the missing
  engine's data model.
\<close>

datatype categorization_method = ml | rule_based

text \<open>
  Modelled from the spec: the missing engine's \<open>CategoryPrediction\<close>. \<open>pred_confidence\<close>
  is the classifier's own confidence, which section 4.7 combines with the confidences
  of the fields.
\<close>

record category_prediction =
  pred_category :: string
  probabilities :: "(string \<times> rat) list"
  pred_method :: categorization_method
  pred_confidence :: rat

text \<open>
  Modelled from the spec: the missing engine's \<open>FeatureVector\<close>, named values under a
  schema version.
\<close>

record feature_vector =
  fv_schema_version :: nat
  fv_values :: "(string \<times> rat) list"

text \<open>
  Modelled from the spec: the missing engine's \<open>Transaction\<close>, the final record.
\<close>

record transaction =
  tx_merchant_name :: "string option"
  tx_total_amount :: "rat option"
  tx_receipt_date :: "date option"
  tx_category :: string
  tx_confidence :: rat
  tx_categorization_method :: categorization_method
  tx_raw_text :: string

text \<open>
  Modelled from the spec: the error taxonomy of its section 7, for the missing engine.
  \<open>ExtractionFailure\<close> is recovered locally and \<open>ModelLoadError\<close> at startup, so only
  the two errors that reach the caller are results of processing.
\<close>

datatype pipeline_error = InvalidInput | FeatureSchemaMismatch

text \<open>
  Modelled from the spec: the trained model that the missing classifier wraps. It
  declares the feature schema version it expects and returns a probability for each of
  the fixed labels, in the order of the configured label list.
\<close>

record ml_model =
  expected_schema_version :: nat
  predict_proba :: "feature_vector \<Rightarrow> rat list"

text \<open>
  Modelled from the spec: an amount candidate of the missing Amount Extractor, tagged
  with (priority, line index, matched value). \<open>rank\<close> is the position of the label
  pattern in the list of descending priority: rank 0 is the highest priority.
\<close>

record candidate =
  rank :: nat
  cand_line :: nat
  cand_value :: rat
  cand_span :: string

text \<open>
  Modelled from the spec: the configuration surface of its section 6 (the category
  labels, the ordered keyword rules, the confidence threshold, the feature schema
  version, the amount label patterns by descending priority) together with the
  heuristics of section 4 that the specification names without fixing them.
\<close>

record config =
  category_labels :: "string list"
  rules :: "(string \<times> string list) list"
  confidence_threshold :: rat
  feature_schema_version :: nat
  amount_patterns :: "(string \<Rightarrow> string option) list"
  normalize_text :: "string \<Rightarrow> string"
  strip_separators :: "string \<Rightarrow> string"
  amount_confidence :: "candidate \<Rightarrow> rat"
  merchant_window :: nat
  is_boilerplate :: "string \<Rightarrow> bool"
  merchant_score :: "raw_line \<Rightarrow> rat"
  find_numeric_date :: "string \<Rightarrow> string option"
  find_named_date :: "string \<Rightarrow> date option"
  date_plausible :: "date option \<Rightarrow> date \<Rightarrow> bool"
  date_confidence :: "raw_line \<Rightarrow> rat"
  feature_values ::
    "raw_line list \<Rightarrow> rat option \<Rightarrow> string option \<Rightarrow> date option \<Rightarrow> date option
       \<Rightarrow> (string \<times> rat) list"
  rule_confidence :: rat
  uncategorized_confidence :: rat
  confidence_weights :: "rat \<times> rat \<times> rat \<times> rat"

subsection \<open>Text Normalizer\<close>

text \<open>
  Modelled from the spec: the missing Text Normalizer (section 4.1). It cleans each
  line and leaves the number and the order of the lines unchanged.
\<close>

definition normalize :: "config \<Rightarrow> raw_line list \<Rightarrow> raw_line list" where
  "normalize cfg ls = map (\<lambda>l. l\<lparr>line_text := normalize_text cfg (line_text l)\<rparr>) ls"

subsection \<open>Amount Extractor\<close>

text \<open>
  Modelled from the spec: the cleaning step of the missing Amount Extractor (section
  4.2). After the separators are stripped and the decimal marks normalized, a token
  with more than one decimal point, with a character that is neither a digit nor the
  decimal point, or with no digit at all is rejected; so is an all-digit token without
  a decimal point that is longer than 3 digits. A surviving token is read as a decimal.
\<close>

definition clean_amount :: "config \<Rightarrow> string \<Rightarrow> rat option" where
  "clean_amount cfg matched =
     (let token = strip_separators cfg matched;
          whole = takeWhile (\<lambda>c. c \<noteq> CHR ''.'') token;
          frac = drop 1 (dropWhile (\<lambda>c. c \<noteq> CHR ''.'') token)
      in if length (filter (\<lambda>c. c = CHR ''.'') token) > 1 then None
         else if \<not> list_all is_digit (whole @ frac) then None
         else if whole @ frac = [] then None
         else if CHR ''.'' \<notin> set token \<and> length token > 3 then None
         else Some (of_nat (digits_value whole) + of_nat (digits_value frac) / 10 ^ length frac))"

text \<open>
  Modelled from the spec: candidate collection of the missing Amount Extractor. Each
  line is tested against each pattern; a match whose cleaning fails is discarded.
\<close>

definition line_candidates :: "config \<Rightarrow> raw_line \<Rightarrow> candidate list" where
  "line_candidates cfg l =
     List.map_filter
       (\<lambda>(r, pattern).
          case pattern (line_text l) of
            None \<Rightarrow> None
          | Some matched \<Rightarrow>
              (case clean_amount cfg matched of
                 None \<Rightarrow> None
               | Some v \<Rightarrow>
                   Some \<lparr>rank = r, cand_line = line_index l, cand_value = v,
                         cand_span = matched\<rparr>))
       (enumerate 0 (amount_patterns cfg))"

text \<open>
  Modelled from the spec: all the surviving candidates of the missing Amount Extractor
  on a document, line by line.
\<close>

definition surviving_candidates :: "config \<Rightarrow> raw_line list \<Rightarrow> candidate list" where
  "surviving_candidates cfg ls = concat (map (line_candidates cfg) ls)"

text \<open>
  Modelled from the spec: the selection of the missing Amount Extractor. The candidate
  with the highest priority wins; among ties the one closer to the end of the document;
  if still tied, the larger absolute value.
\<close>

definition preferred :: "candidate \<Rightarrow> candidate \<Rightarrow> bool" where
  "preferred a b =
     (rank a < rank b \<or>
      (rank a = rank b \<and>
        (cand_line a > cand_line b \<or>
         (cand_line a = cand_line b \<and> \<bar>cand_value a\<bar> > \<bar>cand_value b\<bar>))))"

text \<open>
  Modelled from the spec: the scan of the missing Amount Extractor that keeps the
  preferred candidate.
\<close>

fun select_best :: "candidate list \<Rightarrow> candidate option" where
  "select_best [] = None"
| "select_best (c # cs) =
     (case select_best cs of
        None \<Rightarrow> Some c
      | Some b \<Rightarrow> if preferred b c then Some b else Some c)"

text \<open>
  Modelled from the spec: the result of the missing Amount Extractor. If no candidate
  survives, the value is \<open>None\<close> with confidence 0.
\<close>

definition extract_amount :: "config \<Rightarrow> raw_line list \<Rightarrow> rat extracted_field" where
  "extract_amount cfg ls =
     (case select_best (surviving_candidates cfg ls) of
        None \<Rightarrow> \<lparr>field_value = None, field_confidence = 0, source_span = []\<rparr>
      | Some c \<Rightarrow>
          \<lparr>field_value = Some (cand_value c), field_confidence = amount_confidence cfg c,
           source_span = cand_span c\<rparr>)"

subsection \<open>Merchant Extractor\<close>

text \<open>
  Modelled from the spec: the choice of the highest-scoring line in the missing
  Merchant Extractor (section 4.3); the earliest among equal scores.
\<close>

fun best_scored :: "config \<Rightarrow> raw_line list \<Rightarrow> raw_line option" where
  "best_scored cfg [] = None"
| "best_scored cfg (l # ls) =
     (case best_scored cfg ls of
        None \<Rightarrow> Some l
      | Some b \<Rightarrow> if merchant_score cfg b > merchant_score cfg l then Some b else Some l)"

text \<open>
  Modelled from the spec: the missing Merchant Extractor (section 4.3). The search is
  restricted to the first K lines, boilerplate lines are discarded, the remaining lines
  are scored, and the highest-scoring one is returned; if every line is filtered out
  the value is \<open>None\<close>.
\<close>

definition extract_merchant :: "config \<Rightarrow> raw_line list \<Rightarrow> string extracted_field" where
  "extract_merchant cfg ls =
     (case best_scored cfg
             (filter (\<lambda>l. \<not> is_boilerplate cfg (line_text l)) (take (merchant_window cfg) ls)) of
        None \<Rightarrow> \<lparr>field_value = None, field_confidence = 0, source_span = []\<rparr>
      | Some l \<Rightarrow>
          \<lparr>field_value = Some (line_text l), field_confidence = merchant_score cfg l,
           source_span = line_text l\<rparr>)"

subsection \<open>Date Extractor\<close>

text \<open>
  Modelled from the spec: the separators of the numeric slash/dash formats of the
  missing Date Extractor (section 4.4).
\<close>

definition is_date_separator :: "char \<Rightarrow> bool" where
  "is_date_separator c = (c = CHR ''/'' \<or> c = CHR ''-'')"

text \<open>
  Modelled from the spec: the numeric slash/dash token of the missing Date Extractor,
  split into its three fields. A token is three non-empty groups of digits separated
  by \<open>/\<close> or \<open>-\<close>.
\<close>

definition split_numeric_date :: "string \<Rightarrow> (nat \<times> nat \<times> nat) option" where
  "split_numeric_date token =
     (let first = takeWhile is_digit token;
          rest1 = dropWhile is_digit token;
          second = takeWhile is_digit (drop 1 rest1);
          rest2 = dropWhile is_digit (drop 1 rest1);
          third = drop 1 rest2
      in if first \<noteq> [] \<and> second \<noteq> [] \<and> third \<noteq> [] \<and> list_all is_digit third \<and>
            list_all is_date_separator (take 1 rest1) \<and> list_all is_date_separator (take 1 rest2)
         then Some (digits_value first, digits_value second, digits_value third)
         else None)"

text \<open>
  Modelled from the spec: the ambiguity policy of the missing Date Extractor. For a
  token \<open>a/b/y\<close> the interpretation whose month field is at most 12 is preferred; if
  both fields are at most 12 the token is read month-first. When neither field can be a
  month there is no date.
\<close>

definition interpret_numeric :: "nat \<Rightarrow> nat \<Rightarrow> nat \<Rightarrow> date option" where
  "interpret_numeric a b y =
     (if a \<le> 12 then Some \<lparr>year = y, month = a, day = b\<rparr>
      else if b \<le> 12 then Some \<lparr>year = y, month = b, day = a\<rparr>
      else None)"

text \<open>
  Modelled from the spec: the reading of a numeric token by the missing Date
  Extractor: split, then interpreted by the ambiguity policy.
\<close>

definition parse_numeric_date :: "string \<Rightarrow> date option" where
  "parse_numeric_date token =
     (case split_numeric_date token of
        None \<Rightarrow> None
      | Some (a, b, y) \<Rightarrow> interpret_numeric a b y)"

text \<open>
  Modelled from the spec: the ordered date patterns of the missing Date Extractor on
  one line, the numeric formats before the month-name formats.
\<close>

definition line_date :: "config \<Rightarrow> raw_line \<Rightarrow> date option" where
  "line_date cfg l =
     (case Option.bind (find_numeric_date cfg (line_text l)) parse_numeric_date of
        Some d \<Rightarrow> Some d
      | None \<Rightarrow> find_named_date cfg (line_text l))"

text \<open>
  Modelled from the spec: the result of the missing Date Extractor. The first line that
  yields a date decides. A date outside the plausible window around the capture
  timestamp is rejected and the value is \<open>None\<close>.
\<close>

definition extract_date :: "config \<Rightarrow> date option \<Rightarrow> raw_line list \<Rightarrow> date extracted_field" where
  "extract_date cfg captured ls =
     (case List.find (\<lambda>l. line_date cfg l \<noteq> None) ls of
        None \<Rightarrow> \<lparr>field_value = None, field_confidence = 0, source_span = []\<rparr>
      | Some l \<Rightarrow>
          (case line_date cfg l of
             None \<Rightarrow> \<lparr>field_value = None, field_confidence = 0, source_span = []\<rparr>
           | Some d \<Rightarrow>
               if date_plausible cfg captured d
               then \<lparr>field_value = Some d, field_confidence = date_confidence cfg l,
                     source_span = line_text l\<rparr>
               else \<lparr>field_value = None, field_confidence = 0, source_span = line_text l\<rparr>))"

subsection \<open>Feature Extractor\<close>

text \<open>
  Modelled from the spec: the missing Feature Extractor (section 4.5). It builds the
  feature vector from the cleaned lines, the three extracted fields and the capture
  timestamp, and stamps it with the schema version.
\<close>

definition extract_features ::
  "config \<Rightarrow> raw_line list \<Rightarrow> rat extracted_field \<Rightarrow> string extracted_field
     \<Rightarrow> date extracted_field \<Rightarrow> date option \<Rightarrow> feature_vector" where
  "extract_features cfg ls amount merchant dt captured =
     \<lparr>fv_schema_version = feature_schema_version cfg,
      fv_values = feature_values cfg ls (field_value amount) (field_value merchant)
                    (field_value dt) captured\<rparr>"

subsection \<open>Category Classifier\<close>

text \<open>
  Modelled from the spec: case folding for the case-insensitive keyword test of the
  missing rule-based strategy (section 4.6).
\<close>

definition lower_char :: "char \<Rightarrow> char" where
  "lower_char c =
     (if 65 \<le> (of_char c :: nat) \<and> (of_char c :: nat) \<le> 90
      then char_of ((of_char c :: nat) + 32) else c)"

text \<open>
  Modelled from the spec: the occurrence of a keyword in a text, for the keyword test
  of the missing rule-based strategy.
\<close>

fun occurs_in :: "string \<Rightarrow> string \<Rightarrow> bool" where
  "occurs_in keyword [] = (keyword = [])"
| "occurs_in keyword (c # cs) =
     (take (length keyword) (c # cs) = keyword \<or> occurs_in keyword cs)"

text \<open>
  Modelled from the spec: the keyword test of the missing rule-based strategy: a
  keyword matches when it occurs in the merchant name or in the raw text, letters
  compared without case.
\<close>

definition keyword_matches :: "string \<Rightarrow> string \<Rightarrow> string \<Rightarrow> bool" where
  "keyword_matches merchant raw keyword =
     (occurs_in (map lower_char keyword) (map lower_char merchant) \<or>
      occurs_in (map lower_char keyword) (map lower_char raw))"

text \<open>
  Modelled from the spec: the missing rule-based strategy. The ordered rules are
  tested in turn and the first rule one of whose keywords matches wins (in an ordered
  list no two rules tie); if no rule matches the category is \<open>Uncategorized\<close> with a
  fixed low confidence. The distribution puts all its mass on the chosen label.
\<close>

definition rule_based_predict :: "config \<Rightarrow> string \<Rightarrow> string \<Rightarrow> category_prediction" where
  "rule_based_predict cfg merchant raw =
     (case List.find (\<lambda>(cat, keywords). list_ex (keyword_matches merchant raw) keywords)
             (rules cfg) of
        Some (cat, keywords) \<Rightarrow>
          \<lparr>pred_category = cat, probabilities = [(cat, 1)], pred_method = rule_based,
           pred_confidence = rule_confidence cfg\<rparr>
      | None \<Rightarrow>
          \<lparr>pred_category = ''Uncategorized'', probabilities = [(''Uncategorized'', 1)],
           pred_method = rule_based, pred_confidence = uncategorized_confidence cfg\<rparr>)"

text \<open>
  Modelled from the spec: the most probable label of the missing ML strategy's
  distribution; the earliest among equal probabilities.
\<close>

fun most_probable :: "(string \<times> rat) list \<Rightarrow> (string \<times> rat) option" where
  "most_probable [] = None"
| "most_probable (p # ps) =
     (case most_probable ps of
        None \<Rightarrow> Some p
      | Some b \<Rightarrow> if snd b > snd p then Some b else Some p)"

text \<open>
  Modelled from the spec: the missing ML strategy. The model's probabilities are paired
  with the fixed labels, and the most probable label is the prediction. A feature
  vector of another schema version than the model expects is the fatal
  \<open>FeatureSchemaMismatch\<close>.
\<close>

definition ml_predict ::
  "config \<Rightarrow> ml_model \<Rightarrow> feature_vector \<Rightarrow> pipeline_error + category_prediction option" where
  "ml_predict cfg model fv =
     (if fv_schema_version fv \<noteq> expected_schema_version model then Inl FeatureSchemaMismatch
      else
        (let dist = zip (category_labels cfg) (predict_proba model fv)
         in case most_probable dist of
              None \<Rightarrow> Inr None
            | Some (cat, p) \<Rightarrow>
                Inr (Some \<lparr>pred_category = cat, probabilities = dist, pred_method = ml,
                           pred_confidence = p\<rparr>)))"

text \<open>
  Modelled from the spec: the outcome of loading the trained model when the missing
  engine starts.
\<close>

datatype model_load = ModelLoaded ml_model | ModelLoadError

text \<open>
  Modelled from the spec: the strategy the missing orchestrator holds. The rule-based
  strategy is always available; the ML strategy only if the trained model loaded.
\<close>

datatype strategy = MLStrategy ml_model | RuleBasedOnly

text \<open>
  Modelled from the spec: the one-time choice of the strategy at the start of the
  missing engine's process. A \<open>ModelLoadError\<close> is recovered by selecting the
  rule-based strategy for the lifetime of the process.
\<close>

definition startup :: "model_load \<Rightarrow> strategy" where
  "startup loaded = (case loaded of ModelLoaded model \<Rightarrow> MLStrategy model
                     | ModelLoadError \<Rightarrow> RuleBasedOnly)"

text \<open>
  Modelled from the spec: the arbitration of the missing classifier. With the ML
  strategy, the model's prediction is used only if its highest probability reaches the
  confidence threshold; otherwise the rule-based prediction is used and the method
  recorded is \<open>rule_based\<close>. Without it, the prediction is rule-based.
\<close>

definition predict ::
  "config \<Rightarrow> strategy \<Rightarrow> feature_vector \<Rightarrow> string \<Rightarrow> string
     \<Rightarrow> pipeline_error + category_prediction" where
  "predict cfg strat fv merchant raw =
     (case strat of
        RuleBasedOnly \<Rightarrow> Inr (rule_based_predict cfg merchant raw)
      | MLStrategy model \<Rightarrow>
          (case ml_predict cfg model fv of
             Inl e \<Rightarrow> Inl e
           | Inr None \<Rightarrow> Inr (rule_based_predict cfg merchant raw)
           | Inr (Some p) \<Rightarrow>
               if pred_confidence p \<ge> confidence_threshold cfg then Inr p
               else Inr (rule_based_predict cfg merchant raw)))"

subsection \<open>Transaction Processor\<close>

text \<open>
  Modelled from the spec: the \<open>raw_text\<close> that the missing orchestrator records in the
  Transaction, the lines of the input as received.
\<close>

definition raw_text_of :: "raw_line list \<Rightarrow> string" where
  "raw_text_of ls = concat (map (\<lambda>l. line_text l @ [CHR 0x0A]) ls)"

text \<open>
  Modelled from the spec: the aggregate confidence of the missing orchestrator, the
  weighted combination of the three field confidences and the classifier's.
\<close>

definition aggregate_confidence :: "config \<Rightarrow> rat \<Rightarrow> rat \<Rightarrow> rat \<Rightarrow> rat \<Rightarrow> rat" where
  "aggregate_confidence cfg ca cm cd cc =
     (case confidence_weights cfg of (wa, wm, wd, wc) \<Rightarrow> wa * ca + wm * cm + wd * cd + wc * cc)"

text \<open>
  Modelled from the spec: the missing orchestrator (section 4.7), the stages
  Received, Normalized, FieldsExtracted, FeaturesComputed, CategoryAssigned, Finalized
  in sequence. An empty input is rejected before the pipeline runs; a field that
  cannot be extracted is \<open>None\<close> and processing continues.
\<close>

definition process :: "config \<Rightarrow> strategy \<Rightarrow> raw_input \<Rightarrow> pipeline_error + transaction" where
  "process cfg strat inp =
     (if input_lines inp = [] then Inl InvalidInput
      else
        (let ls = normalize cfg (input_lines inp);
             amount = extract_amount cfg ls;
             merchant = extract_merchant cfg ls;
             dt = extract_date cfg (capture_timestamp inp) ls;
             fv = extract_features cfg ls amount merchant dt (capture_timestamp inp);
             raw = raw_text_of (input_lines inp)
         in case predict cfg strat fv (case field_value merchant of None \<Rightarrow> [] | Some m \<Rightarrow> m)
                   raw of
              Inl e \<Rightarrow> Inl e
            | Inr p \<Rightarrow>
                Inr \<lparr>tx_merchant_name = field_value merchant,
                     tx_total_amount = field_value amount,
                     tx_receipt_date = field_value dt,
                     tx_category = pred_category p,
                     tx_confidence =
                       aggregate_confidence cfg (field_confidence amount)
                         (field_confidence merchant) (field_confidence dt) (pred_confidence p),
                     tx_categorization_method = pred_method p,
                     tx_raw_text = raw\<rparr>))"

text \<open>
  Modelled from the spec: one call of the missing orchestrator within a process. The
  classifier holds no per-call mutable state: processing an input leaves the strategy
  as it was.
\<close>

definition process_step ::
  "config \<Rightarrow> strategy \<Rightarrow> raw_input \<Rightarrow> (pipeline_error + transaction) \<times> strategy" where
  "process_step cfg strat inp = (process cfg strat inp, strat)"

text \<open>
  Modelled from the spec: the missing engine processing inputs one after the other,
  the strategy handed from each call to the next.
\<close>

fun run :: "config \<Rightarrow> strategy \<Rightarrow> raw_input list \<Rightarrow> (pipeline_error + transaction) list" where
  "run cfg strat [] = []"
| "run cfg strat (inp # inps) =
     (case process_step cfg strat inp of (result, strat') \<Rightarrow> result # run cfg strat' inps)"

text \<open>
  Modelled from the spec: the lifetime of a process of the missing engine. The model
  is loaded once at startup; afterwards each input is processed with the strategy
  chosen then.
\<close>

definition lifetime ::
  "config \<Rightarrow> model_load \<Rightarrow> raw_input list \<Rightarrow> (pipeline_error + transaction) list" where
  "lifetime cfg loaded inps = run cfg (startup loaded) inps"

subsection \<open>A configuration for examples\<close>

text \<open>
  A small configuration on which the engine can be run on concrete receipts: label
  patterns in the order GRAND TOTAL, TOTAL, AMOUNT DUE, BALANCE, each yielding the
  amount token at the end of a line that contains the label; the ten labels of the
  training data; a few keyword rules.
\<close>

definition amount_char :: "char \<Rightarrow> bool" where
  "amount_char c = (is_digit c \<or> c = CHR ''.'' \<or> c = CHR '','')"

definition label_amount :: "string \<Rightarrow> string \<Rightarrow> string option" where
  "label_amount label line =
     (if occurs_in label line then Some (rev (takeWhile amount_char (rev line))) else None)"

definition example_config :: config where
  "example_config =
     \<lparr>category_labels =
        [''Dining'', ''Entertainment'', ''Groceries'', ''Healthcare'', ''Shopping'',
         ''Subscriptions'', ''Transfer'', ''Transportation'', ''Travel'', ''Utilities''],
      rules =
        [(''Dining'', [''starbucks'', ''restaurant'', ''cafe'']),
         (''Groceries'', [''market'', ''grocery'']),
         (''Transportation'', [''uber'', ''fuel''])],
      confidence_threshold = 3 / 10,
      feature_schema_version = 1,
      amount_patterns =
        [label_amount ''GRAND TOTAL'', label_amount ''TOTAL'', label_amount ''AMOUNT DUE'',
         label_amount ''BALANCE''],
      normalize_text = (\<lambda>s. s),
      strip_separators = filter (\<lambda>c. c \<noteq> CHR '',''),
      amount_confidence = (\<lambda>c. 9 / 10),
      merchant_window = 5,
      is_boilerplate = (\<lambda>s. list_all is_digit s),
      merchant_score = line_confidence,
      find_numeric_date = (\<lambda>s. if split_numeric_date s = None then None else Some s),
      find_named_date = (\<lambda>s. None),
      date_plausible = (\<lambda>captured d. True),
      date_confidence = line_confidence,
      feature_values = (\<lambda>ls amount merchant dt captured. []),
      rule_confidence = 6 / 10,
      uncategorized_confidence = 1 / 10,
      confidence_weights = (1 / 4, 1 / 4, 1 / 4, 1 / 4)\<rparr>"

definition example_lines :: "raw_line list" where
  "example_lines =
     [\<lparr>line_text = ''STARBUCKS #1234'', line_confidence = 9 / 10, line_index = 0\<rparr>,
      \<lparr>line_text = ''SUBTOTAL $14.50'', line_confidence = 9 / 10, line_index = 1\<rparr>,
      \<lparr>line_text = ''TOTAL: $15.92'', line_confidence = 8 / 10, line_index = 2\<rparr>,
      \<lparr>line_text = ''13/02/2024'', line_confidence = 7 / 10, line_index = 3\<rparr>]"

definition example_input :: raw_input where
  "example_input = \<lparr>input_lines = example_lines, capture_timestamp = None\<rparr>"

section \<open>Properties of the API utilities\<close>

subsection \<open>The retry loop, one iteration at a time\<close>

declare retry_loop.simps [simp del]

lemma retry_loop_stop:
  "\<not> int a \<le> m \<Longrightarrow>
   retry_loop f m d a le c s = \<lparr>outcome = Inl le, invocations = c, slept_ms = s\<rparr>"
  by (simp add: retry_loop.simps [of f m d a])

lemma retry_loop_success:
  "int a \<le> m \<Longrightarrow> f a = Inr r \<Longrightarrow>
   retry_loop f m d a le c s = \<lparr>outcome = Inr r, invocations = Suc c, slept_ms = s\<rparr>"
  by (simp add: retry_loop.simps [of f m d a])

lemma retry_loop_undefined:
  "int a \<le> m \<Longrightarrow> f a = Inl Rejected_undefined \<Longrightarrow>
   retry_loop f m d a le c s =
     \<lparr>outcome = Inl (Some (TypeError_reading_message ''undefined'')),
      invocations = Suc c, slept_ms = s\<rparr>"
  by (simp add: retry_loop.simps [of f m d a])

lemma retry_loop_null:
  "int a \<le> m \<Longrightarrow> f a = Inl Rejected_null \<Longrightarrow>
   retry_loop f m d a le c s =
     \<lparr>outcome = Inl (Some (TypeError_reading_message ''null'')),
      invocations = Suc c, slept_ms = s\<rparr>"
  by (simp add: retry_loop.simps [of f m d a])

lemma retry_loop_rethrow:
  "int a \<le> m \<Longrightarrow> f a = Inl (Rejected e) \<Longrightarrow> client_error e \<Longrightarrow>
   retry_loop f m d a le c s = \<lparr>outcome = Inl (Some e), invocations = Suc c, slept_ms = s\<rparr>"
  by (simp add: retry_loop.simps [of f m d a])

lemma retry_loop_again:
  "int a \<le> m \<Longrightarrow> f a = Inl (Rejected e) \<Longrightarrow> \<not> client_error e \<Longrightarrow>
   retry_loop f m d a le c s =
     retry_loop f m d (Suc a) (Some e) (Suc c) (if int a < m then s + d else s)"
  by (simp add: retry_loop.simps [of f m d a])

text \<open>
  The four ways one iteration can go, for case analysis: the loop is left, or the
  iteration ends the run (a result, a rethrown client error, a \<open>TypeError\<close>), or the
  loop goes on with the next attempt.
\<close>

lemma retry_loop_iteration:
  obtains
    (stop) "\<not> int a \<le> m"
           "retry_loop f m d a le c s = \<lparr>outcome = Inl le, invocations = c, slept_ms = s\<rparr>"
  | (last) x where "int a \<le> m"
           "retry_loop f m d a le c s = \<lparr>outcome = x, invocations = Suc c, slept_ms = s\<rparr>"
           "(\<exists>r. f a = Inr r \<and> x = Inr r) \<or>
            (\<exists>e. f a = Inl (Rejected e) \<and> client_error e \<and> x = Inl (Some e)) \<or>
            (f a = Inl Rejected_undefined \<and> x = Inl (Some (TypeError_reading_message ''undefined''))) \<or>
            (f a = Inl Rejected_null \<and> x = Inl (Some (TypeError_reading_message ''null'')))"
  | (again) e where "int a \<le> m" "f a = Inl (Rejected e)" "\<not> client_error e"
           "retry_loop f m d a le c s =
              retry_loop f m d (Suc a) (Some e) (Suc c) (if int a < m then s + d else s)"
proof (cases "int a \<le> m")
  case False
  then show ?thesis by (intro stop retry_loop_stop)
next
  case True
  show ?thesis
  proof (cases "f a")
    case (Inr r)
    show ?thesis
    proof (rule last [of "Inr r"])
      show "int a \<le> m" by fact
      show "retry_loop f m d a le c s = \<lparr>outcome = Inr r, invocations = Suc c, slept_ms = s\<rparr>"
        using True Inr by (rule retry_loop_success)
    qed (simp add: Inr)
  next
    case (Inl rej)
    show ?thesis
    proof (cases rej)
      case Rejected_undefined
      show ?thesis
      proof (rule last [of "Inl (Some (TypeError_reading_message ''undefined''))"])
        show "int a \<le> m" by fact
        show "retry_loop f m d a le c s =
            \<lparr>outcome = Inl (Some (TypeError_reading_message ''undefined'')),
             invocations = Suc c, slept_ms = s\<rparr>"
          using True Inl Rejected_undefined by (simp add: retry_loop_undefined)
      qed (simp add: Inl Rejected_undefined)
    next
      case Rejected_null
      show ?thesis
      proof (rule last [of "Inl (Some (TypeError_reading_message ''null''))"])
        show "int a \<le> m" by fact
        show "retry_loop f m d a le c s =
            \<lparr>outcome = Inl (Some (TypeError_reading_message ''null'')),
             invocations = Suc c, slept_ms = s\<rparr>"
          using True Inl Rejected_null by (simp add: retry_loop_null)
      qed (simp add: Inl Rejected_null)
    next
      case (Rejected e)
      show ?thesis
      proof (cases "client_error e")
        case ce: True
        show ?thesis
        proof (rule last [of "Inl (Some e)"])
          show "int a \<le> m" by fact
          show "retry_loop f m d a le c s =
              \<lparr>outcome = Inl (Some e), invocations = Suc c, slept_ms = s\<rparr>"
            using True Inl Rejected ce by (simp add: retry_loop_rethrow)
        qed (simp add: Inl Rejected ce)
      next
        case False
        show ?thesis
        proof (rule again [of e])
          show "int a \<le> m" by fact
          show "f a = Inl (Rejected e)" using Inl Rejected by simp
          show "\<not> client_error e" by fact
          show "retry_loop f m d a le c s =
              retry_loop f m d (Suc a) (Some e) (Suc c) (if int a < m then s + d else s)"
            using True Inl Rejected False by (simp add: retry_loop_again)
        qed
      qed
    qed
  qed
qed

text \<open>The loop started at \<open>attempt = a\<close> calls \<open>requestFn\<close> at most \<open>maxRetries + 1 - a\<close> times.\<close>

lemma retry_loop_calls:
  "invocations (retry_loop f m d a le c s) \<le> c + nat (m + 1 - int a)"
proof (induction f m d a le c s rule: retry_loop.induct)
  case (1 f m d a le c s)
  show ?case
  proof (cases rule: retry_loop_iteration [of a m f d le c s])
    case stop
    then show ?thesis by simp
  next
    case (last x)
    then show ?thesis by simp
  next
    case (again e)
    with "1.IH" [of "Rejected e" e] show ?thesis by simp
  qed
qed

lemma retry_loop_at_least:
  "c \<le> invocations (retry_loop f m d a le c s)"
proof (induction f m d a le c s rule: retry_loop.induct)
  case (1 f m d a le c s)
  show ?case
  proof (cases rule: retry_loop_iteration [of a m f d le c s])
    case stop
    then show ?thesis by simp
  next
    case (last x)
    then show ?thesis by simp
  next
    case (again e)
    with "1.IH" [of "Rejected e" e] show ?thesis by simp
  qed
qed

lemma retry_loop_enters:
  assumes am: "int a \<le> m"
  shows "c < invocations (retry_loop f m d a le c s)"
proof (cases rule: retry_loop_iteration [of a m f d le c s])
  case stop
  with am show ?thesis by simp
next
  case (last x)
  then show ?thesis by simp
next
  case (again e)
  have "Suc c \<le> invocations
          (retry_loop f m d (Suc a) (Some e) (Suc c) (if int a < m then s + d else s))"
    by (rule retry_loop_at_least)
  then show ?thesis by (simp only: again(4))
qed

text \<open>
  Whatever the loop settles with comes from the last invocation it made; it throws the
  \<open>lastError\<close> it was started with only when it made no invocation at all. \<open>n\<close> is
  the number of invocations of the run and \<open>a + (n - c) - 1\<close> the attempt of the last one.
\<close>

lemma retry_loop_last:
  "case outcome (retry_loop f m d a le c s) of
      Inr r \<Rightarrow> c < invocations (retry_loop f m d a le c s) \<and>
               f (a + (invocations (retry_loop f m d a le c s) - c) - 1) = Inr r
    | Inl x \<Rightarrow>
        if invocations (retry_loop f m d a le c s) = c then x = le
        else \<exists>e. x = Some e \<and>
               (f (a + (invocations (retry_loop f m d a le c s) - c) - 1) = Inl (Rejected e) \<or>
                f (a + (invocations (retry_loop f m d a le c s) - c) - 1) = Inl Rejected_undefined \<and>
                  e = TypeError_reading_message ''undefined'' \<or>
                f (a + (invocations (retry_loop f m d a le c s) - c) - 1) = Inl Rejected_null \<and>
                  e = TypeError_reading_message ''null'')"
proof (induction f m d a le c s rule: retry_loop.induct)
  case (1 f m d a le c s)
  show ?case
  proof (cases rule: retry_loop_iteration [of a m f d le c s])
    case stop
    then show ?thesis by simp
  next
    case (last x)
    then show ?thesis by auto
  next
    case (again e)
    let ?R = "retry_loop f m d (Suc a) (Some e) (Suc c) (if int a < m then s + d else s)"
    have ge: "Suc c \<le> invocations ?R" by (rule retry_loop_at_least)
    have IH: "case outcome ?R of
        Inr r \<Rightarrow> Suc c < invocations ?R \<and> f (Suc a + (invocations ?R - Suc c) - 1) = Inr r
      | Inl x \<Rightarrow>
          if invocations ?R = Suc c then x = Some e
          else \<exists>e'. x = Some e' \<and>
                 (f (Suc a + (invocations ?R - Suc c) - 1) = Inl (Rejected e') \<or>
                  f (Suc a + (invocations ?R - Suc c) - 1) = Inl Rejected_undefined \<and>
                    e' = TypeError_reading_message ''undefined'' \<or>
                  f (Suc a + (invocations ?R - Suc c) - 1) = Inl Rejected_null \<and>
                    e' = TypeError_reading_message ''null'')"
      using "1.IH" [of "Rejected e" e] again by simp
    show ?thesis
    proof (cases "invocations ?R = Suc c")
      case True
      with IH again show ?thesis
        by (auto split: sum.splits)
    next
      case False
      with ge have gt: "Suc c < invocations ?R" by simp
      then have idx: "Suc a + (invocations ?R - Suc c) - 1 = a + (invocations ?R - c) - 1"
        by simp
      from IH gt False show ?thesis unfolding again(4) idx
        by (auto split: sum.splits)
    qed
  qed
qed

text \<open>
  The loop sleeps after every failed attempt that another attempt follows: once less
  than it invokes \<open>requestFn\<close>.
\<close>

lemma retry_loop_slept:
  "slept_ms (retry_loop f m d a le c s) =
     s + d * int (invocations (retry_loop f m d a le c s) - Suc c)"
proof (induction f m d a le c s rule: retry_loop.induct)
  case (1 f m d a le c s)
  show ?case
  proof (cases rule: retry_loop_iteration [of a m f d le c s])
    case stop
    then show ?thesis by simp
  next
    case (last x)
    then show ?thesis by simp
  next
    case (again e)
    let ?s' = "if int a < m then s + d else s"
    let ?R = "retry_loop f m d (Suc a) (Some e) (Suc c) ?s'"
    have IH: "slept_ms ?R = ?s' + d * int (invocations ?R - Suc (Suc c))"
      using "1.IH" [of "Rejected e" e] again by simp
    show ?thesis
    proof (cases "int a < m")
      case True
      then have "Suc c < invocations ?R"
        by (intro retry_loop_enters) simp
      then have "int (invocations ?R - Suc c) = 1 + int (invocations ?R - Suc (Suc c))"
        by simp
      with IH True show ?thesis unfolding again(4)
        by (simp add: algebra_simps)
    next
      case False
      then have "?R = \<lparr>outcome = Inl (Some e), invocations = Suc c, slept_ms = s\<rparr>"
        by (simp add: retry_loop_stop)
      then show ?thesis unfolding again(4) by simp
    qed
  qed
qed

text \<open>
  When the attempts before the \<open>k\<close>-th failed with errors that are retried, the loop
  reaches the \<open>k\<close>-th attempt, having invoked \<open>requestFn\<close> once per attempt before it.
\<close>

lemma retry_loop_reaches:
  "a \<le> k \<Longrightarrow> int k \<le> m \<Longrightarrow>
   (\<forall>j. a \<le> j \<and> j < k \<longrightarrow> (\<exists>e. f j = Inl (Rejected e) \<and> \<not> client_error e)) \<Longrightarrow>
   \<exists>le' s'. retry_loop f m d a le c s = retry_loop f m d k le' (c + (k - a)) s'"
proof (induction "k - a" arbitrary: a le c s)
  case 0
  then have "a = k" by simp
  then have "retry_loop f m d a le c s = retry_loop f m d k le (c + (k - a)) s" by simp
  then show ?case by blast
next
  case (Suc n)
  then have lt: "a < k" by simp
  with Suc.prems obtain e where e: "f a = Inl (Rejected e)" "\<not> client_error e" by auto
  have am: "int a \<le> m" using lt Suc.prems by simp
  have step: "retry_loop f m d a le c s =
      retry_loop f m d (Suc a) (Some e) (Suc c) (if int a < m then s + d else s)"
    using am e by (rule retry_loop_again)
  have "\<exists>le' s'. retry_loop f m d (Suc a) (Some e) (Suc c) (if int a < m then s + d else s)
          = retry_loop f m d k le' (Suc c + (k - Suc a)) s'"
  proof (rule Suc.hyps(1))
    show "n = k - Suc a" using Suc.hyps(2) by simp
    show "Suc a \<le> k" using lt by simp
    show "int k \<le> m" by fact
    show "\<forall>j. Suc a \<le> j \<and> j < k \<longrightarrow> (\<exists>e. f j = Inl (Rejected e) \<and> \<not> client_error e)"
      using Suc.prems(3) by auto
  qed
  then obtain le' s' where next_run:
    "retry_loop f m d (Suc a) (Some e) (Suc c) (if int a < m then s + d else s)
       = retry_loop f m d k le' (Suc c + (k - Suc a)) s'"
    by blast
  have idx: "Suc c + (k - Suc a) = c + (k - a)" using lt by simp
  have "retry_loop f m d a le c s = retry_loop f m d k le' (c + (k - a)) s'"
    by (simp only: step next_run idx)
  then show ?case by blast
qed

text \<open>When every attempt fails with an error that is retried, all the attempts are made.\<close>

lemma retry_loop_exhausts:
  "(\<forall>k. a \<le> k \<and> int k \<le> m \<longrightarrow> (\<exists>e. f k = Inl (Rejected e) \<and> \<not> client_error e)) \<Longrightarrow>
   invocations (retry_loop f m d a le c s) = c + nat (m + 1 - int a)"
proof (induction f m d a le c s rule: retry_loop.induct)
  case (1 f m d a le c s)
  show ?case
  proof (cases "int a \<le> m")
    case False
    then show ?thesis by (simp add: retry_loop_stop)
  next
    case True
    with "1.prems" obtain e where e: "f a = Inl (Rejected e)" "\<not> client_error e" by auto
    have "invocations (retry_loop f m d (Suc a) (Some e) (Suc c) (if int a < m then s + d else s))
          = Suc c + nat (m + 1 - int (Suc a))"
      using "1.IH" [OF True e(1) _ e(2)] "1.prems" by simp
    with True e show ?thesis by (simp add: retry_loop_again)
  qed
qed

text \<open>
  A rejection with \<open>undefined\<close> or \<open>null\<close> at an attempt that is reached ends the run
  there, with the \<open>TypeError\<close> of the logging line.
\<close>

lemma retry_loop_nullish:
  assumes "a \<le> k" "int k \<le> m"
    and "\<forall>j. a \<le> j \<and> j < k \<longrightarrow> (\<exists>e. f j = Inl (Rejected e) \<and> \<not> client_error e)"
  shows "f k = Inl Rejected_undefined \<Longrightarrow>
           outcome (retry_loop f m d a le c s) = Inl (Some (TypeError_reading_message ''undefined'')) \<and>
           invocations (retry_loop f m d a le c s) = c + (k - a) + 1"
    and "f k = Inl Rejected_null \<Longrightarrow>
           outcome (retry_loop f m d a le c s) = Inl (Some (TypeError_reading_message ''null'')) \<and>
           invocations (retry_loop f m d a le c s) = c + (k - a) + 1"
proof -
  from retry_loop_reaches [OF assms] obtain le' s' where
    run: "retry_loop f m d a le c s = retry_loop f m d k le' (c + (k - a)) s'"
    by blast
  show "f k = Inl Rejected_undefined \<Longrightarrow>
           outcome (retry_loop f m d a le c s) = Inl (Some (TypeError_reading_message ''undefined'')) \<and>
           invocations (retry_loop f m d a le c s) = c + (k - a) + 1"
    using assms(2) by (simp add: run retry_loop_undefined)
  show "f k = Inl Rejected_null \<Longrightarrow>
           outcome (retry_loop f m d a le c s) = Inl (Some (TypeError_reading_message ''null'')) \<and>
           invocations (retry_loop f m d a le c s) = c + (k - a) + 1"
    using assms(2) by (simp add: run retry_loop_null)
qed

text \<open>
  When the attempts before the \<open>k\<close>-th failed with errors that are retried and the
  \<open>k\<close>-th fails with a client error, the loop stops there.
\<close>

lemma retry_loop_client_error:
  assumes "a \<le> k" "int k \<le> m"
    and "\<forall>j. a \<le> j \<and> j < k \<longrightarrow> (\<exists>e. f j = Inl (Rejected e) \<and> \<not> client_error e)"
    and "f k = Inl (Rejected e)" "client_error e"
  shows "outcome (retry_loop f m d a le c s) = Inl (Some e) \<and>
         invocations (retry_loop f m d a le c s) = c + (k - a) + 1"
proof -
  from retry_loop_reaches [OF assms(1-3)] obtain le' s' where
    run: "retry_loop f m d a le c s = retry_loop f m d k le' (c + (k - a)) s'"
    by blast
  show ?thesis
    using assms(2,4,5) by (simp add: run retry_loop_rethrow)
qed

subsection \<open>retryRequest\<close>

text \<open>
  Claim C8, for request functions that reject with error objects. \<open>retryRequest\<close>
  invokes the request function at most \<open>maxRetries\<close> times, and sleeps \<open>delay\<close> once less
  than it invokes. When the \<open>k\<close>-th attempt is reached and fails with an error object
  whose response status is in \<open>[400, 500)\<close> and is neither 408 nor 429, that error is
  rethrown and the \<open>k\<close>-th invocation was the last one. When \<open>maxRetries \<ge> 1\<close> and every
  attempt fails with an error object, the error thrown is the error of the last
  invocation made; when every attempt fails with an error that is retried, that is the
  attempt number \<open>maxRetries\<close>.
\<close>

theorem retryRequest_attempts:
  "invocations (retryRequest requestFn maxRetries delay) \<le> nat maxRetries \<and>
   slept_ms (retryRequest requestFn maxRetries delay) =
     delay * int (invocations (retryRequest requestFn maxRetries delay) - 1) \<and>
   (\<forall>k err resp.
      1 \<le> k \<and> int k \<le> maxRetries \<and>
      (\<forall>j. 1 \<le> j \<and> j < k \<longrightarrow> (\<exists>e. requestFn j = Inl (Rejected e) \<and> \<not> client_error e)) \<and>
      requestFn k = Inl (Rejected err) \<and> err_response err = Some resp \<and>
      400 \<le> status resp \<and> status resp < 500 \<and> status resp \<noteq> 408 \<and> status resp \<noteq> 429 \<longrightarrow>
      outcome (retryRequest requestFn maxRetries delay) = Inl (Some err) \<and>
      invocations (retryRequest requestFn maxRetries delay) = k) \<and>
   (1 \<le> maxRetries \<and>
    (\<forall>k. 1 \<le> k \<and> int k \<le> maxRetries \<longrightarrow> (\<exists>e. requestFn k = Inl (Rejected e))) \<longrightarrow>
      (\<exists>err. outcome (retryRequest requestFn maxRetries delay) = Inl (Some err) \<and>
         1 \<le> invocations (retryRequest requestFn maxRetries delay) \<and>
         requestFn (invocations (retryRequest requestFn maxRetries delay)) = Inl (Rejected err))) \<and>
   ((\<forall>k. 1 \<le> k \<and> int k \<le> maxRetries \<longrightarrow>
         (\<exists>e. requestFn k = Inl (Rejected e) \<and> \<not> client_error e)) \<longrightarrow>
      invocations (retryRequest requestFn maxRetries delay) = nat maxRetries)"
proof (intro conjI allI impI)
  let ?R = "retry_loop requestFn maxRetries delay 1 None 0 0"
  have bound: "invocations ?R \<le> nat maxRetries"
    using retry_loop_calls [of requestFn maxRetries delay 1 None 0 0] by simp
  then show "invocations (retryRequest requestFn maxRetries delay) \<le> nat maxRetries"
    by (simp add: retryRequest_def)
  show "slept_ms (retryRequest requestFn maxRetries delay) =
     delay * int (invocations (retryRequest requestFn maxRetries delay) - 1)"
    using retry_loop_slept [of requestFn maxRetries delay 1 None 0 0]
    by (simp add: retryRequest_def)
  {
    fix k err resp
    assume h: "1 \<le> k \<and> int k \<le> maxRetries \<and>
      (\<forall>j. 1 \<le> j \<and> j < k \<longrightarrow> (\<exists>e. requestFn j = Inl (Rejected e) \<and> \<not> client_error e)) \<and>
      requestFn k = Inl (Rejected err) \<and> err_response err = Some resp \<and>
      400 \<le> status resp \<and> status resp < 500 \<and> status resp \<noteq> 408 \<and> status resp \<noteq> 429"
    then have "client_error err" by (simp add: client_error_def)
    with h have "outcome ?R = Inl (Some err) \<and> invocations ?R = 0 + (k - 1) + 1"
      by (intro retry_loop_client_error) auto
    with h show "outcome (retryRequest requestFn maxRetries delay) = Inl (Some err)"
      and "invocations (retryRequest requestFn maxRetries delay) = k"
      by (simp_all add: retryRequest_def)
  }
  {
    assume "\<forall>k. 1 \<le> k \<and> int k \<le> maxRetries \<longrightarrow>
              (\<exists>e. requestFn k = Inl (Rejected e) \<and> \<not> client_error e)"
    then have "invocations ?R = 0 + nat (maxRetries + 1 - int 1)"
      by (intro retry_loop_exhausts) auto
    then show "invocations (retryRequest requestFn maxRetries delay) = nat maxRetries"
      by (simp add: retryRequest_def)
  }
  assume h: "1 \<le> maxRetries \<and>
    (\<forall>k. 1 \<le> k \<and> int k \<le> maxRetries \<longrightarrow> (\<exists>e. requestFn k = Inl (Rejected e)))"
  then have pos: "0 < invocations ?R"
    using retry_loop_enters [of 1 maxRetries 0 requestFn delay None 0] by simp
  have last: "case outcome ?R of
      Inr r \<Rightarrow> 0 < invocations ?R \<and> requestFn (1 + (invocations ?R - 0) - 1) = Inr r
    | Inl x \<Rightarrow>
        if invocations ?R = 0 then x = None
        else \<exists>e. x = Some e \<and>
               (requestFn (1 + (invocations ?R - 0) - 1) = Inl (Rejected e) \<or>
                requestFn (1 + (invocations ?R - 0) - 1) = Inl Rejected_undefined \<and>
                  e = TypeError_reading_message ''undefined'' \<or>
                requestFn (1 + (invocations ?R - 0) - 1) = Inl Rejected_null \<and>
                  e = TypeError_reading_message ''null'')"
    by (rule retry_loop_last)
  have "1 \<le> invocations ?R" using pos by simp
  moreover have "int (invocations ?R) \<le> maxRetries" using bound h by linarith
  ultimately obtain e0 where fails: "requestFn (invocations ?R) = Inl (Rejected e0)"
    using h by blast
  show "\<exists>err. outcome (retryRequest requestFn maxRetries delay) = Inl (Some err) \<and>
         1 \<le> invocations (retryRequest requestFn maxRetries delay) \<and>
         requestFn (invocations (retryRequest requestFn maxRetries delay)) = Inl (Rejected err)"
  proof (cases "outcome ?R")
    case (Inr r)
    with last have "requestFn (invocations ?R) = Inr r" by simp
    with fails show ?thesis by simp
  next
    case (Inl x)
    with last pos fails have "x = Some e0" by auto
    with Inl pos fails show ?thesis by (auto simp: retryRequest_def)
  qed
qed

lemma client_error_err500: "\<not> client_error err500"
  by (simp add: client_error_def err500_def)

lemma client_error_err404: "client_error err404"
  by (simp add: client_error_def err404_def)

theorem retryRequest_attempts_witness:
  "invocations (retryRequest flaky_then_404 3 2000) \<le> 3 \<and>
   slept_ms (retryRequest flaky_then_404 3 2000) = 2000 \<and>
   outcome (retryRequest flaky_then_404 3 2000) = Inl (Some err404) \<and>
   invocations (retryRequest flaky_then_404 3 2000) = 2 \<and>
   flaky_then_404 (invocations (retryRequest flaky_then_404 3 2000)) = Inl (Rejected err404)"
proof -
  have pre: "1 \<le> (2::nat) \<and> int 2 \<le> 3 \<and>
      (\<forall>j. 1 \<le> j \<and> j < 2 \<longrightarrow> (\<exists>e. flaky_then_404 j = Inl (Rejected e) \<and> \<not> client_error e)) \<and>
      flaky_then_404 2 = Inl (Rejected err404) \<and> err_response err404 = Some \<lparr>status = 404\<rparr> \<and>
      400 \<le> status \<lparr>status = 404\<rparr> \<and> status \<lparr>status = 404\<rparr> < 500 \<and>
      status \<lparr>status = 404\<rparr> \<noteq> 408 \<and> status \<lparr>status = 404\<rparr> \<noteq> 429"
    using client_error_err500 by (simp add: flaky_then_404_def err404_def)
  have all: "1 \<le> (3::int) \<and>
      (\<forall>k. 1 \<le> k \<and> int k \<le> 3 \<longrightarrow> (\<exists>e. flaky_then_404 k = Inl (Rejected e)))"
    by (simp add: flaky_then_404_def)
  from retryRequest_attempts [of flaky_then_404 3 2000] pre all
  have run: "outcome (retryRequest flaky_then_404 3 2000) = Inl (Some err404)"
    "invocations (retryRequest flaky_then_404 3 2000) = 2"
    "slept_ms (retryRequest flaky_then_404 3 2000) =
       2000 * int (invocations (retryRequest flaky_then_404 3 2000) - 1)"
    by blast+
  then show ?thesis by (simp add: flaky_then_404_def)
qed

text \<open>
  The claim as stated, for every request function, fails on one that rejects with
  \<open>undefined\<close>: every attempt would fail, yet \<open>retryRequest\<close> makes one invocation and
  throws a \<open>TypeError\<close>, not the \<open>undefined\<close> of the last attempt.
\<close>

theorem retryRequest_undefined_counterexample:
  "rejects_undefined 1 = Inl Rejected_undefined \<and>
   rejects_undefined 2 = Inl Rejected_undefined \<and>
   rejects_undefined 3 = Inl Rejected_undefined \<and>
   invocations (retryRequest rejects_undefined 3 2000) = 1 \<and>
   outcome (retryRequest rejects_undefined 3 2000) =
     Inl (Some (TypeError_reading_message ''undefined'')) \<and>
   outcome (retryRequest rejects_undefined 3 2000) \<noteq> Inl None"
  by (simp add: rejects_undefined_def retryRequest_def retry_loop_undefined)

subsection \<open>healthCheck\<close>

lemma api_get_settles:
  "(\<exists>r. outcome (api_get get) = Inr r) \<or> (\<exists>e. outcome (api_get get) = Inl (Some e))"
proof -
  let ?R = "retry_loop get 3 2000 1 None 0 0"
  have pos: "0 < invocations ?R"
    using retry_loop_enters [of 1 3 0 get 2000 None 0] by simp
  have "case outcome ?R of
      Inr r \<Rightarrow> 0 < invocations ?R \<and> get (1 + (invocations ?R - 0) - 1) = Inr r
    | Inl x \<Rightarrow>
        if invocations ?R = 0 then x = None
        else \<exists>e. x = Some e \<and>
               (get (1 + (invocations ?R - 0) - 1) = Inl (Rejected e) \<or>
                get (1 + (invocations ?R - 0) - 1) = Inl Rejected_undefined \<and>
                  e = TypeError_reading_message ''undefined'' \<or>
                get (1 + (invocations ?R - 0) - 1) = Inl Rejected_null \<and>
                  e = TypeError_reading_message ''null'')"
    by (rule retry_loop_last)
  with pos show ?thesis
    by (auto simp: api_get_def retryRequest_def default_maxRetries_def default_delay_def
             split: sum.splits)
qed

text \<open>
  Claim C10. \<open>healthCheck\<close> never throws: it always returns an object, whose \<open>url\<close> is
  \<open>API_BASE_URL\<close>; when the GET (with its retries) succeeds the object has
  \<open>success = true\<close> and a non-empty \<open>message\<close>, and when it fails the object has
  \<open>success = false\<close> and carries the message of the error thrown.
\<close>

theorem healthCheck_never_throws:
  "\<exists>h. healthCheck API_BASE_URL get = Inr h \<and> url h = API_BASE_URL \<and>
     (case outcome (api_get get) of
        Inr resp \<Rightarrow>
          success h \<and> error h = None \<and> (\<exists>m. message h = Some m \<and> m \<noteq> [])
      | Inl thrown \<Rightarrow>
          \<not> success h \<and> message h = None \<and>
          (\<exists>e. thrown = Some e \<and> error h = Some (err_message e)))"
proof -
  from api_get_settles [of get] show ?thesis
  proof
    assume "\<exists>r. outcome (api_get get) = Inr r"
    then obtain r where "outcome (api_get get) = Inr r" ..
    then show ?thesis
      by (auto simp: healthCheck_def js_or_def split: option.splits)
  next
    assume "\<exists>e. outcome (api_get get) = Inl (Some e)"
    then obtain e where "outcome (api_get get) = Inl (Some e)" ..
    then show ?thesis
      by (simp add: healthCheck_def)
  qed
qed

section \<open>Properties of the dashboard statistics and of the receipt views\<close>

subsection \<open>stats.totalAmount\<close>

lemma strip_currency_spec: "strip_currency s = spec_delete_currency s"
  by (induction s) (auto simp: strip_currency_def spec_delete_currency_def)

lemma amount_step_present:
  "total_amount r = Some s \<Longrightarrow>
   amount_step N acc r = Inr (plus_num N acc (spec_value N s))"
  by (simp add: amount_step_def spec_value_def strip_currency_spec Let_def)

lemma spec_amounts_Cons:
  "spec_amounts N (r # receipts) =
     (case total_amount r of
        None \<Rightarrow> spec_amounts N receipts
      | Some s \<Rightarrow> if s = [] then spec_amounts N receipts
                 else spec_value N s # spec_amounts N receipts)"
  by (simp add: spec_amounts_def split: option.splits)

text \<open>
  Claim C9. For every list of receipts, \<open>stats.totalAmount\<close> is computed without an
  exception and equals the sum, over exactly the receipts whose \<open>total_amount\<close> is
  neither null nor empty, of the value obtained by deleting every \<open>$\<close> and \<open>,\<close> and
  parsing the rest as a float, with 0 for an unparsable text; the other receipts
  contribute nothing.
\<close>

theorem totalAmount_is_spec_sum:
  "totalAmount N receipts = Inr (spec_totalAmount N receipts)"
proof -
  \<comment> \<open>The filter leaves only receipts on which the callback does not throw, and the
      reduction over them adds their values from left to right.\<close>
  have "reduce (amount_step N) (filter (\<lambda>r. truthy (total_amount r)) receipts) acc =
        Inr (foldl (plus_num N) acc (spec_amounts N receipts))" for acc
  proof (induction receipts arbitrary: acc)
    case Nil
    show ?case by (simp add: spec_amounts_def)
  next
    case (Cons r receipts)
    show ?case
    proof (cases "total_amount r")
      case None
      with Cons show ?thesis
        by (simp add: truthy_def spec_amounts_Cons)
    next
      case (Some s)
      show ?thesis
      proof (cases "s = []")
        case True
        with Some Cons show ?thesis
          by (simp add: truthy_def spec_amounts_Cons)
      next
        case False
        with Some have keep: "truthy (total_amount r)"
          by (simp add: truthy_def)
        have "spec_amounts N (r # receipts) = spec_value N s # spec_amounts N receipts"
          using Some False by (simp add: spec_amounts_Cons)
        with keep Some Cons show ?thesis
          by (simp add: amount_step_present)
      qed
    qed
  qed
  then show ?thesis
    by (simp add: totalAmount_def spec_totalAmount_def)
qed

lemma exact_decimal_simps:
  "parseFloat exact_decimal ''1234.50'' = Some (2469 / 2)"
  "parseFloat exact_decimal ''6.75'' = Some (27 / 4)"
  "parseFloat exact_decimal ''abc'' = None"
  "zero_num exact_decimal = Some 0"
  "falsy_num exact_decimal a = (a = None \<or> a = Some 0)"
  "plus_num exact_decimal (Some x) (Some y) = Some (x + y)"
  by (simp_all add: exact_decimal_def)

theorem totalAmount_is_spec_sum_witness:
  "totalAmount exact_decimal
     [receipt_of (Some ''$1,234.50''), receipt_of None,
      receipt_of (Some ''''), receipt_of (Some ''abc''),
      receipt_of (Some ''$6.75'')]
   = Inr (Some (4965 / 4))"
proof -
  have "spec_totalAmount exact_decimal
     [receipt_of (Some ''$1,234.50''), receipt_of None,
      receipt_of (Some ''''), receipt_of (Some ''abc''),
      receipt_of (Some ''$6.75'')] = Some (4965 / 4)"
    by (simp add: spec_totalAmount_def spec_amounts_def map_filter_simps receipt_of_def
          spec_value_def spec_delete_currency_def exact_decimal_simps)
  then show ?thesis
    using totalAmount_is_spec_sum [of exact_decimal] by simp
qed

subsection \<open>The receipt views\<close>






section \<open>Properties of the extraction and categorization engine\<close>

subsection \<open>Amount selection\<close>

text \<open>
  \<open>preferred\<close> is the strict part of the lexicographic order on (priority, line index,
  absolute value): spelled out, \<open>c\<close> is not preferred to \<open>b\<close> when the following holds.
\<close>

lemma not_preferred_iff:
  "\<not> preferred c b \<longleftrightarrow>
     rank b \<le> rank c \<and>
     (rank c = rank b \<longrightarrow>
        cand_line c \<le> cand_line b \<and>
        (cand_line c = cand_line b \<longrightarrow> \<bar>cand_value c\<bar> \<le> \<bar>cand_value b\<bar>))"
  unfolding preferred_def by auto

lemma preferred_asym: "preferred a b \<Longrightarrow> \<not> preferred b a"
  unfolding preferred_def by auto

lemma not_preferred_trans:
  "\<not> preferred x b \<Longrightarrow> \<not> preferred b c \<Longrightarrow> \<not> preferred x c"
  unfolding preferred_def by auto

lemma select_best_None: "select_best cs = None \<longleftrightarrow> cs = []"
  by (cases cs) (auto split: option.splits)

lemma select_best_member: "select_best cs = Some b \<Longrightarrow> b \<in> set cs"
  by (induction cs arbitrary: b) (auto split: option.splits if_splits)

lemma select_best_maximal:
  "select_best cs = Some b \<Longrightarrow> c \<in> set cs \<Longrightarrow> \<not> preferred c b"
proof (induction cs arbitrary: b)
  case Nil
  then show ?case by simp
next
  case (Cons x xs)
  show ?case
  proof (cases "select_best xs")
    case None
    then have "xs = []" by (simp add: select_best_None)
    with Cons.prems None show ?thesis by (auto simp: preferred_def)
  next
    case (Some b')
    show ?thesis
    proof (cases "preferred b' x")
      case True
      with Some Cons.prems have b: "b = b'" by simp
      show ?thesis
      proof (cases "c = x")
        case True
        with \<open>preferred b' x\<close> b show ?thesis by (simp add: preferred_asym)
      next
        case False
        with Cons.prems have "c \<in> set xs" by simp
        with Cons.IH [OF Some] b show ?thesis by simp
      qed
    next
      case False
      with Some Cons.prems have b: "b = x" by simp
      show ?thesis
      proof (cases "c = x")
        case True
        with b show ?thesis by (simp add: preferred_def)
      next
        case c: False
        with Cons.prems have "c \<in> set xs" by simp
        then have "\<not> preferred c b'" using Cons.IH [OF Some] by simp
        with False b show ?thesis using not_preferred_trans by blast
      qed
    qed
  qed
qed

lemma in_set_map_filter:
  "y \<in> set (List.map_filter f xs) \<longleftrightarrow> (\<exists>x \<in> set xs. f x = Some y)"
  by (induction xs) (auto split: option.splits)

text \<open>
  The surviving candidates are exactly the matches of a pattern on a line whose
  cleaning succeeds, tagged with the pattern's rank and the line's index.
\<close>

lemma surviving_candidates_iff:
  "c \<in> set (surviving_candidates cfg ls) \<longleftrightarrow>
     (\<exists>l \<in> set ls. \<exists>r < length (amount_patterns cfg). \<exists>matched v.
        (amount_patterns cfg ! r) (line_text l) = Some matched \<and>
        clean_amount cfg matched = Some v \<and>
        c = \<lparr>rank = r, cand_line = line_index l, cand_value = v, cand_span = matched\<rparr>)"
proof -
  let ?cand = "\<lambda>l r matched v.
    \<lparr>rank = r, cand_line = line_index l, cand_value = v, cand_span = matched\<rparr>"
  have line: "c \<in> set (line_candidates cfg l) \<longleftrightarrow>
     (\<exists>r < length (amount_patterns cfg). \<exists>matched v.
        (amount_patterns cfg ! r) (line_text l) = Some matched \<and>
        clean_amount cfg matched = Some v \<and> c = ?cand l r matched v)" (is "?L \<longleftrightarrow> ?R") for l
  proof
    assume ?L
    then obtain r pattern where mem: "(r, pattern) \<in> set (enumerate 0 (amount_patterns cfg))"
      and some: "(case pattern (line_text l) of None \<Rightarrow> None
                  | Some matched \<Rightarrow>
                      (case clean_amount cfg matched of None \<Rightarrow> None
                       | Some v \<Rightarrow> Some (?cand l r matched v))) = Some c"
      unfolding line_candidates_def in_set_map_filter by auto
    from mem have r: "r < length (amount_patterns cfg)" "amount_patterns cfg ! r = pattern"
      by (simp_all add: in_set_enumerate_eq)
    from some obtain matched v where "pattern (line_text l) = Some matched"
      "clean_amount cfg matched = Some v" "c = ?cand l r matched v"
      by (auto split: option.splits)
    with r show ?R by auto
  next
    assume ?R
    then obtain r matched v where r: "r < length (amount_patterns cfg)"
      and m: "(amount_patterns cfg ! r) (line_text l) = Some matched"
      and v: "clean_amount cfg matched = Some v" and c: "c = ?cand l r matched v"
      by auto
    from r have "(r, amount_patterns cfg ! r) \<in> set (enumerate 0 (amount_patterns cfg))"
      by (simp add: in_set_enumerate_eq)
    with m v c show ?L
      unfolding line_candidates_def in_set_map_filter by force
  qed
  show ?thesis
    unfolding surviving_candidates_def by (auto simp: line)
qed

text \<open>
  Claim C3. The Amount Extractor returns no value exactly when no candidate survives;
  otherwise its value is that of a surviving candidate \<open>b\<close> such that every surviving
  candidate \<open>c\<close> has a priority that is not higher (a rank not smaller); if \<open>c\<close> has the
  same priority it is not on a later line; and if it is on the same line too, its
  absolute value is not larger.
\<close>

theorem extract_amount_selects_best:
  "(case select_best (surviving_candidates cfg ls) of
      None \<Rightarrow>
        surviving_candidates cfg ls = [] \<and> field_value (extract_amount cfg ls) = None
    | Some b \<Rightarrow>
        b \<in> set (surviving_candidates cfg ls) \<and>
        field_value (extract_amount cfg ls) = Some (cand_value b) \<and>
        (\<forall>c \<in> set (surviving_candidates cfg ls).
           rank b \<le> rank c \<and>
           (rank c = rank b \<longrightarrow>
              cand_line c \<le> cand_line b \<and>
              (cand_line c = cand_line b \<longrightarrow> \<bar>cand_value c\<bar> \<le> \<bar>cand_value b\<bar>))))"
proof (cases "select_best (surviving_candidates cfg ls)")
  case None
  then show ?thesis by (simp add: select_best_None extract_amount_def)
next
  case (Some b)
  have "b \<in> set (surviving_candidates cfg ls)"
    using Some by (rule select_best_member)
  moreover have "field_value (extract_amount cfg ls) = Some (cand_value b)"
    using Some by (simp add: extract_amount_def)
  moreover have "\<forall>c \<in> set (surviving_candidates cfg ls). \<not> preferred c b"
    using Some select_best_maximal by blast
  ultimately show ?thesis
    using Some by (simp add: not_preferred_iff)
qed

lemma example_surviving:
  "surviving_candidates example_config example_lines =
     [\<lparr>rank = 1, cand_line = 1, cand_value = 29 / 2, cand_span = ''14.50''\<rparr>,
      \<lparr>rank = 1, cand_line = 2, cand_value = 398 / 25, cand_span = ''15.92''\<rparr>]"
  by code_simp

theorem extract_amount_selects_best_witness:
  "field_value (extract_amount example_config example_lines) = Some (398 / 25) \<and>
   \<lparr>rank = 1, cand_line = 2, cand_value = 398 / 25, cand_span = ''15.92''\<rparr>
     \<in> set (surviving_candidates example_config example_lines) \<and>
   length (surviving_candidates example_config example_lines) = 2"
proof -
  have best: "select_best (surviving_candidates example_config example_lines) =
      Some \<lparr>rank = 1, cand_line = 2, cand_value = 398 / 25, cand_span = ''15.92''\<rparr>"
    unfolding example_surviving by (simp add: preferred_def)
  from extract_amount_selects_best [of example_config example_lines]
  show ?thesis
    unfolding best by (simp add: example_surviving)
qed

subsection \<open>Date interpretation\<close>

lemma split_scenario_D: "split_numeric_date ''13/02/2024'' = Some (13, 2, 2024)"
  by (simp add: split_numeric_date_def is_digit_def is_date_separator_def digits_value_def)

text \<open>
  Claim C4. A numeric token \<open>a/b/y\<close> is read month-first when \<open>a\<close> is at most 12 (so also
  when both fields are), and day-first when only \<open>b\<close> is; the Date Extractor reads the
  numeric token it finds on a line in this way; and the token 13/02/2024 is
  February 13, 2024.
\<close>

theorem numeric_date_policy:
  "(a \<le> 12 \<longrightarrow> interpret_numeric a b y = Some \<lparr>year = y, month = a, day = b\<rparr>) \<and>
   (12 < a \<and> b \<le> 12 \<longrightarrow> interpret_numeric a b y = Some \<lparr>year = y, month = b, day = a\<rparr>) \<and>
   (split_numeric_date token = Some (a, b, y) \<longrightarrow>
      parse_numeric_date token = interpret_numeric a b y) \<and>
   (find_numeric_date cfg (line_text l) = Some token \<and>
    split_numeric_date token = Some (a, b, y) \<and> (a \<le> 12 \<or> b \<le> 12) \<longrightarrow>
      line_date cfg l =
        Some (if a \<le> 12 then \<lparr>year = y, month = a, day = b\<rparr>
              else \<lparr>year = y, month = b, day = a\<rparr>)) \<and>
   parse_numeric_date ''13/02/2024'' = Some \<lparr>year = 2024, month = 2, day = 13\<rparr>"
proof (intro conjI impI)
  show "parse_numeric_date ''13/02/2024'' = Some \<lparr>year = 2024, month = 2, day = 13\<rparr>"
    by (simp add: parse_numeric_date_def split_scenario_D interpret_numeric_def)
next
  assume "find_numeric_date cfg (line_text l) = Some token \<and>
    split_numeric_date token = Some (a, b, y) \<and> (a \<le> 12 \<or> b \<le> 12)"
  then show "line_date cfg l =
        Some (if a \<le> 12 then \<lparr>year = y, month = a, day = b\<rparr>
              else \<lparr>year = y, month = b, day = a\<rparr>)"
    by (auto simp: line_date_def parse_numeric_date_def interpret_numeric_def)
qed (simp_all add: interpret_numeric_def parse_numeric_date_def)

theorem numeric_date_policy_witness:
  "split_numeric_date ''13/02/2024'' = Some (13, 2, 2024) \<and>
   interpret_numeric 13 2 2024 = Some \<lparr>year = 2024, month = 2, day = 13\<rparr> \<and>
   line_date example_config \<lparr>line_text = ''13/02/2024'', line_confidence = 1, line_index = 0\<rparr>
     = Some \<lparr>year = 2024, month = 2, day = 13\<rparr>"
proof -
  have found: "find_numeric_date example_config
      (line_text \<lparr>line_text = ''13/02/2024'', line_confidence = 1, line_index = 0\<rparr>)
      = Some ''13/02/2024''"
    by (simp add: example_config_def split_scenario_D)
  from numeric_date_policy
         [of 13 2 2024 "''13/02/2024''" example_config
             "\<lparr>line_text = ''13/02/2024'', line_confidence = 1, line_index = 0\<rparr>"]
       split_scenario_D found
  show ?thesis by simp
qed

subsection \<open>Classifier arbitration over a process lifetime\<close>

lemma rule_based_predict_method: "pred_method (rule_based_predict cfg merchant raw) = rule_based"
  by (simp add: rule_based_predict_def split: option.splits prod.splits)

lemma process_rule_based_only_cases:
  "if input_lines inp = [] then process cfg RuleBasedOnly inp = Inl InvalidInput
   else \<exists>t. process cfg RuleBasedOnly inp = Inr t \<and> tx_categorization_method t = rule_based"
  by (simp add: process_def predict_def Let_def rule_based_predict_method)

lemma run_length: "length (run cfg strat inps) = length inps"
  by (induction inps) (simp_all add: process_step_def)

lemma run_nth: "i < length inps \<Longrightarrow> run cfg strat inps ! i = process cfg strat (inps ! i)"
proof (induction inps arbitrary: i)
  case Nil
  then show ?case by simp
next
  case (Cons inp inps)
  then show ?case by (cases i) (simp_all add: process_step_def)
qed

text \<open>
  Claim C2. When the model fails to load at startup, every input processed during the
  lifetime of the process gets a result, and the result of an input that is not empty
  is a Transaction whose \<open>categorization_method\<close> is \<open>rule_based\<close>, never \<open>ml\<close> (an
  empty input is rejected as invalid).
\<close>

theorem load_failure_is_rule_based:
  "length (lifetime cfg ModelLoadError inps) = length inps \<and>
   (\<forall>i < length inps.
      if input_lines (inps ! i) = []
      then lifetime cfg ModelLoadError inps ! i = Inl InvalidInput
      else \<exists>t. lifetime cfg ModelLoadError inps ! i = Inr t \<and>
               tx_categorization_method t = rule_based \<and> tx_categorization_method t \<noteq> ml)"
proof (intro conjI allI impI)
  show "length (lifetime cfg ModelLoadError inps) = length inps"
    by (simp add: lifetime_def run_length)
next
  fix i
  assume i: "i < length inps"
  have "lifetime cfg ModelLoadError inps ! i = process cfg RuleBasedOnly (inps ! i)"
    using i by (simp add: lifetime_def startup_def run_nth)
  with process_rule_based_only_cases [of "inps ! i" cfg]
  show "if input_lines (inps ! i) = []
      then lifetime cfg ModelLoadError inps ! i = Inl InvalidInput
      else \<exists>t. lifetime cfg ModelLoadError inps ! i = Inr t \<and>
               tx_categorization_method t = rule_based \<and> tx_categorization_method t \<noteq> ml"
    by (auto split: if_splits)
qed

theorem load_failure_is_rule_based_witness:
  "length (lifetime example_config ModelLoadError [example_input, example_input]) = 2 \<and>
   (\<exists>t. lifetime example_config ModelLoadError [example_input, example_input] ! 1 = Inr t \<and>
        tx_categorization_method t = rule_based)"
proof -
  have ne: "input_lines ([example_input, example_input] ! 1) \<noteq> []"
    by (simp add: example_input_def example_lines_def)
  from load_failure_is_rule_based [of example_config "[example_input, example_input]"] ne
  show ?thesis by (auto split: if_splits)
qed

end
